theory Spec2Isabelle
  imports Complex_Main "HOL-Library.Char_ord" "HOL-Library.List_Lexorder"
begin

section \<open>Tabular datasets\<close>

text \<open>
  The program works on pandas data frames. A frame is modelled as its row count together
  with its ordered columns; a column is a name and its data. The data of a column follows
  the two column kinds the program distinguishes with \<^verbatim>\<open>select_dtypes(include="number")\<close>:
  a numeric column stores numbers only, with \<open>None\<close> for the missing marker (NaN); every
  other column stores arbitrary values (text, as read from a CSV file, or numbers after a
  constant fill), again with \<open>None\<close> for a missing cell.

  Numbers are exact rationals: rounding of 64-bit floats and the values \<open>inf\<close> and
  \<open>-inf\<close> are outside this model.
\<close>

datatype val = Num rat | Str string

datatype coldata = NumData "rat option list" | ObjData "val option list"

datatype kind = Numeric | Categorical

record column =
  name :: string
  data :: coldata

record dataset =
  row_count :: nat
  columns :: "column list"

fun kind_of :: "coldata \<Rightarrow> kind" where
  "kind_of (NumData xs) = Numeric"
| "kind_of (ObjData xs) = Categorical"

fun cells :: "coldata \<Rightarrow> val option list" where
  "cells (NumData xs) = map (map_option Num) xs"
| "cells (ObjData xs) = xs"

text \<open>
  The invariants of a frame: every column has \<open>row_count\<close> cells, and column names are
  unique (the CSV reader renames duplicates). The operations below address columns by
  position; with unique names this is what pandas does by label.
\<close>

definition wf_dataset :: "dataset \<Rightarrow> bool" where
  "wf_dataset df \<longleftrightarrow>
     list_all (\<lambda>c. length (cells (data c)) = row_count df) (columns df) \<and>
     distinct (map name (columns df))"

text \<open>Row \<open>i\<close> of a frame: the cells at position \<open>i\<close>, one per column, in column order.\<close>

definition row :: "dataset \<Rightarrow> nat \<Rightarrow> val option list" where
  "row df i = map (\<lambda>c. cells (data c) ! i) (columns df)"

text \<open>The non-missing values of a list of cells, in order.\<close>

definition present :: "'a option list \<Rightarrow> 'a list" where
  "present xs = List.map_filter id xs"

definition count_notna :: "'a option list \<Rightarrow> nat" where
  "count_notna xs = length (filter (\<lambda>x. x \<noteq> None) xs)"

section \<open>Errors and the log\<close>

text \<open>
  Exceptions are values. \<open>ValueError\<close> carries its message, since the program and pandas
  raise it at different places for different reasons. Calls of \<^verbatim>\<open>logging.info\<close> and
  \<^verbatim>\<open>logging.warning\<close> append a record to a log that every operation returns next to its
  result; records written before an exception are kept.
\<close>

datatype error =
  ValueError string
| FileNotFoundError string
| IndexError string

datatype level = INFO | WARNING

type_synonym log_record = "level \<times> string"

type_synonym 'a logged = "log_record list \<times> (error + 'a)"

section \<open>The pandas operations used by the program\<close>

text \<open>
  The library calls are modelled as pandas 1.5 to 2.x performs them. Three of them behave
  differently in other versions, and the model says so where it defines them: an explicit
  \<^verbatim>\<open>thresh=None\<close> in \<^verbatim>\<open>dropna\<close>, \<^verbatim>\<open>fillna\<close> without a value, and the in-place fill
  of a selected column.
\<close>

subsection \<open>Column statistics\<close>

text \<open>
  \<^verbatim>\<open>DataFrame.mean()\<close> and \<^verbatim>\<open>DataFrame.median()\<close> skip missing cells; for a column
  without any non-missing cell the statistic is NaN, here \<open>None\<close>.
\<close>

definition mean :: "rat option list \<Rightarrow> rat option" where
  "mean xs =
     (let ps = present xs
      in if ps = [] then None else Some (sum_list ps / of_nat (length ps)))"

definition median :: "rat option list \<Rightarrow> rat option" where
  "median xs =
     (let ps = sort (present xs); n = length ps
      in if n = 0 then None
         else if odd n then Some (ps ! (n div 2))
         else Some ((ps ! (n div 2 - 1) + ps ! (n div 2)) / 2))"

text \<open>
  \<^verbatim>\<open>Series.mode()\<close> returns every value of maximal frequency among the non-missing
  cells: collected in order of first occurrence, then sorted when the values can be
  compared (all numbers, or all text), and left in order of occurrence otherwise.
\<close>

definition max_count :: "'a list \<Rightarrow> nat" where
  "max_count ps = fold max (map (count_list ps) ps) 0"

definition most_frequent :: "'a list \<Rightarrow> 'a list" where
  "most_frequent ps =
     filter (\<lambda>v. count_list ps v = max_count ps) (rev (remdups (rev ps)))"

fun all_nums :: "val list \<Rightarrow> rat list option" where
  "all_nums [] = Some []"
| "all_nums (Num x # vs) = map_option ((#) x) (all_nums vs)"
| "all_nums (Str s # vs) = None"

fun all_strs :: "val list \<Rightarrow> string list option" where
  "all_strs [] = Some []"
| "all_strs (Str s # vs) = map_option ((#) s) (all_strs vs)"
| "all_strs (Num x # vs) = None"

definition sort_modes :: "val list \<Rightarrow> val list" where
  "sort_modes vs =
     (case all_nums vs of
        Some ns \<Rightarrow> map Num (sort ns)
      | None \<Rightarrow>
          (case all_strs vs of
             Some ss \<Rightarrow> map Str (sort ss)
           | None \<Rightarrow> vs))"

fun mode :: "coldata \<Rightarrow> val list" where
  "mode (NumData xs) = map Num (sort (most_frequent (present xs)))"
| "mode (ObjData xs) = sort_modes (most_frequent (present xs))"

text \<open>\<^verbatim>\<open>.iloc[0]\<close>: the first element, or \<open>IndexError\<close> when there is none.\<close>

definition iloc0 :: "'a list \<Rightarrow> error + 'a" where
  "iloc0 xs =
     (case xs of
        [] \<Rightarrow> Inl (IndexError ''single positional indexer is out-of-bounds'')
      | x # _ \<Rightarrow> Inr x)"

subsection \<open>Filling\<close>

text \<open>
  \<^verbatim>\<open>fillna\<close> with one value for a column replaces exactly the missing cells. A NaN
  fill value (the statistic of a column without non-missing cells) replaces nothing.
\<close>

definition fill_cells :: "'a \<Rightarrow> 'a option list \<Rightarrow> 'a option list" where
  "fill_cells v xs = map (\<lambda>x. case x of None \<Rightarrow> Some v | Some y \<Rightarrow> Some y) xs"

definition fillna_stat :: "(rat option list \<Rightarrow> rat option) \<Rightarrow> rat option list \<Rightarrow> rat option list" where
  "fillna_stat stat xs = (case stat xs of None \<Rightarrow> xs | Some m \<Rightarrow> fill_cells m xs)"

text \<open>
  The \<open>mean\<close> and \<open>median\<close> branches select the numeric columns, fill each with its
  own statistic and assign them back; the other columns are not touched.
\<close>

fun fill_numeric :: "(rat option list \<Rightarrow> rat option) \<Rightarrow> coldata \<Rightarrow> coldata" where
  "fill_numeric stat (NumData xs) = NumData (fillna_stat stat xs)"
| "fill_numeric stat (ObjData xs) = ObjData xs"

definition fill_numeric_cols :: "(rat option list \<Rightarrow> rat option) \<Rightarrow> dataset \<Rightarrow> dataset" where
  "fill_numeric_cols stat df =
     df\<lparr>columns := map (\<lambda>c. c\<lparr>data := fill_numeric stat (data c)\<rparr>) (columns df)\<rparr>"

text \<open>
  A fill value is written into a column of its own kind directly. A text value written
  into a numeric column with a missing cell turns the column into an object column; a
  numeric column without missing cells is returned as it is.
\<close>

fun fillna_value :: "val \<Rightarrow> coldata \<Rightarrow> coldata" where
  "fillna_value (Num x) (NumData xs) = NumData (fill_cells x xs)"
| "fillna_value (Str s) (NumData xs) =
     (if None \<in> set xs then ObjData (fill_cells (Str s) (map (map_option Num) xs))
      else NumData xs)"
| "fillna_value v (ObjData xs) = ObjData (fill_cells v xs)"

text \<open>
  The \<open>mode\<close> branch loops over the columns in order; for each it takes the first mode
  of the column and fills the column with it, in place: the fill of the selected column
  is taken to write through to the frame, as pandas before version 3 does (without
  copy-on-write). The first
  column without a mode stops the loop with the \<open>IndexError\<close> of \<^verbatim>\<open>.iloc[0]\<close>.
\<close>

definition fill_mode_col :: "column \<Rightarrow> error + column" where
  "fill_mode_col c =
     (case iloc0 (mode (data c)) of
        Inl e \<Rightarrow> Inl e
      | Inr v \<Rightarrow> Inr (c\<lparr>data := fillna_value v (data c)\<rparr>))"

fun fill_mode_cols :: "column list \<Rightarrow> error + column list" where
  "fill_mode_cols [] = Inr []"
| "fill_mode_cols (c # cs) =
     (case fill_mode_col c of
        Inl e \<Rightarrow> Inl e
      | Inr c' \<Rightarrow>
          (case fill_mode_cols cs of
             Inl e \<Rightarrow> Inl e
           | Inr cs' \<Rightarrow> Inr (c' # cs')))"

text \<open>
  \<^verbatim>\<open>DataFrame.fillna(value)\<close> validates its argument before it looks at the frame:
  without a value (Python's \<open>None\<close>) it raises \<open>ValueError\<close>. This is pandas 1.x and
  2.x; pandas 3 returns the frame unchanged instead.
\<close>

definition must_specify :: string where
  "must_specify = ''Must specify a fill 'value' or 'method'.''"

definition fillna :: "val option \<Rightarrow> dataset \<Rightarrow> error + dataset" where
  "fillna value df =
     (case value of
        None \<Rightarrow> Inl (ValueError must_specify)
      | Some v \<Rightarrow> Inr (df\<lparr>columns := map (\<lambda>c. c\<lparr>data := fillna_value v (data c)\<rparr>) (columns df)\<rparr>))"

subsection \<open>Dropping\<close>

text \<open>
  \<^verbatim>\<open>dropna(axis, thresh)\<close> keeps a row (axis 0) or a column (axis 1) when the number
  of its non-missing cells reaches the threshold: the mask is \<^verbatim>\<open>count >= thresh\<close>.

  The program always passes the argument, \<^verbatim>\<open>thresh=self.threshold\<close>, also when the
  threshold is Python's \<open>None\<close>. Since pandas 1.5 the default of \<^verbatim>\<open>thresh\<close> is a
  sentinel of its own, so an explicit \<open>None\<close> does not select the default rule
  \<^verbatim>\<open>how="any"\<close>: pandas compares \<^verbatim>\<open>count >= None\<close>, which is false for every row or
  column, and nothing is kept. (Before pandas 1.5 the default was \<open>None\<close> and the rule
  \<^verbatim>\<open>how="any"\<close> applied.) Any axis number other than 0 and 1 is rejected.
\<close>

definition enough :: "int option \<Rightarrow> 'a option list \<Rightarrow> bool" where
  "enough thresh xs =
     (case thresh of
        Some t \<Rightarrow> t \<le> int (count_notna xs)
      | None \<Rightarrow> False)"

definition kept_rows :: "int option \<Rightarrow> dataset \<Rightarrow> nat list" where
  "kept_rows thresh df = filter (\<lambda>i. enough thresh (row df i)) [0..<row_count df]"

fun take_rows :: "nat list \<Rightarrow> coldata \<Rightarrow> coldata" where
  "take_rows ks (NumData xs) = NumData (map ((!) xs) ks)"
| "take_rows ks (ObjData xs) = ObjData (map ((!) xs) ks)"

definition drop_rows :: "int option \<Rightarrow> dataset \<Rightarrow> dataset" where
  "drop_rows thresh df =
     (let ks = kept_rows thresh df
      in \<lparr>row_count = length ks,
          columns = map (\<lambda>c. c\<lparr>data := take_rows ks (data c)\<rparr>) (columns df)\<rparr>)"

definition drop_columns :: "int option \<Rightarrow> dataset \<Rightarrow> dataset" where
  "drop_columns thresh df =
     df\<lparr>columns := filter (\<lambda>c. enough thresh (cells (data c))) (columns df)\<rparr>"

fun str_nat :: "nat \<Rightarrow> string" where
  "str_nat n =
     (if n < 10 then [char_of (48 + n)]
      else str_nat (n div 10) @ [char_of (48 + n mod 10)])"

definition str_int :: "int \<Rightarrow> string" where
  "str_int i = (if i < 0 then CHR ''-'' # str_nat (nat (- i)) else str_nat (nat i))"

definition dropna :: "int \<Rightarrow> int option \<Rightarrow> dataset \<Rightarrow> error + dataset" where
  "dropna axis thresh df =
     (if axis = 0 then Inr (drop_rows thresh df)
      else if axis = 1 then Inr (drop_columns thresh df)
      else Inl (ValueError (''No axis named '' @ str_int axis @ '' for object type DataFrame'')))"

section \<open>The missing-value strategies\<close>

text \<open>
  The two concrete strategies with the parameters their constructors store: axis and
  threshold for dropping (defaults \<open>0\<close> and \<open>None\<close>), method and fill value for filling
  (defaults \<open>mean\<close> and \<open>None\<close>).
\<close>

datatype strategy =
  DropMissingValuesStrategy (axis: int) (threshold: "int option")
| FillMissingValuesStrategy (fill_method: string) (fill_value: "val option")

definition str_threshold :: "int option \<Rightarrow> string" where
  "str_threshold t = (case t of None \<Rightarrow> ''None'' | Some n \<Rightarrow> str_int n)"

text \<open>
  \<open>handle\<close> of a strategy. Each branch writes its log records in the order of the
  source; the closing record is written only when the pandas call before it returned.
\<close>

definition after :: "log_record list \<Rightarrow> error + 'a \<Rightarrow> log_record \<Rightarrow> 'a logged" where
  "after logs r finish =
     (case r of Inl e \<Rightarrow> (logs, Inl e) | Inr x \<Rightarrow> (logs @ [finish], Inr x))"

fun handle :: "strategy \<Rightarrow> dataset \<Rightarrow> dataset logged" where
  "handle (DropMissingValuesStrategy ax thr) df =
     after
       [(INFO, ''Dropping missing values with axis='' @ str_int ax @ '' and threshold='' @ str_threshold thr)]
       (dropna ax thr df)
       (INFO, ''Missing values dropped.'')"
| "handle (FillMissingValuesStrategy m fv) df =
     (let start = (INFO, ''Filling missing values using method: '' @ m);
          finish = (INFO, ''Missing values filled.'')
      in if m = ''mean'' then ([start, finish], Inr (fill_numeric_cols mean df))
         else if m = ''median'' then ([start, finish], Inr (fill_numeric_cols median df))
         else if m = ''mode'' then
           after [start]
             (case fill_mode_cols (columns df) of
                Inl e \<Rightarrow> Inl e
              | Inr cs \<Rightarrow> Inr (df\<lparr>columns := cs\<rparr>))
             finish
         else if m = ''constant'' then after [start] (fillna fv df) finish
         else
           ([start,
             (WARNING, CHR 0x27 # m @ CHR 0x27 # '' is an unknown method... No missing values handled.''),
             finish],
            Inr df))"

text \<open>The context class: it holds one strategy and delegates to it.\<close>

record MissingValueHandler =
  strategy :: strategy

definition set_strategy :: "MissingValueHandler \<Rightarrow> strategy \<Rightarrow> log_record list \<times> MissingValueHandler" where
  "set_strategy h s =
     ([(INFO, ''Switching to a new missing value handling strategy.'')], h\<lparr>strategy := s\<rparr>)"

definition handle_missing_values :: "MissingValueHandler \<Rightarrow> dataset \<Rightarrow> dataset logged" where
  "handle_missing_values h df =
     (let r = handle (strategy h) df
      in ((INFO, ''Executing the current missing value handling strategy.'') # fst r, snd r))"

section \<open>The cleaning step\<close>

definition unsupported :: "string \<Rightarrow> string" where
  "unsupported s =
     ''The provided missing value handling strategy is unsupported/unknown: '' @ s"

definition handle_missing_values_step :: "dataset \<Rightarrow> string \<Rightarrow> dataset logged" where
  "handle_missing_values_step df s =
     (if s = ''drop'' then
        handle_missing_values \<lparr>strategy = DropMissingValuesStrategy 0 None\<rparr> df
      else if s \<in> set [''mean'', ''median'', ''mode'', ''constant''] then
        handle_missing_values \<lparr>strategy = FillMissingValuesStrategy s None\<rparr> df
      else ([], Inl (ValueError (unsupported s))))"

section \<open>Ingestion from a ZIP archive\<close>

text \<open>
  The ingestor talks to the file system through three library calls, taken here as
  parameters over a state \<open>'fs\<close> of the file system:
  \<^item> \<open>extractall path dir\<close> is \<^verbatim>\<open>zipfile.ZipFile(path, "r").extractall(dir)\<close>: it
    changes the file system and may fail;
  \<^item> \<open>listdir dir\<close> is \<^verbatim>\<open>os.listdir(dir)\<close>;
  \<^item> \<open>read_csv path\<close> is \<^verbatim>\<open>pd.read_csv(path)\<close>.
\<close>

record 'fs platform =
  extractall :: "string \<Rightarrow> string \<Rightarrow> 'fs \<Rightarrow> 'fs \<times> error option"
  listdir :: "string \<Rightarrow> 'fs \<Rightarrow> error + string list"
  read_csv :: "string \<Rightarrow> 'fs \<Rightarrow> error + dataset"

definition endswith :: "string \<Rightarrow> string \<Rightarrow> bool" where
  "endswith s suffix \<longleftrightarrow>
     length suffix \<le> length s \<and> drop (length s - length suffix) s = suffix"

text \<open>\<^verbatim>\<open>os.path.join\<close> of two components, with \<open>/\<close> as the separator.\<close>

definition path_join :: "string \<Rightarrow> string \<Rightarrow> string" where
  "path_join a b =
     (if b \<noteq> [] \<and> hd b = CHR ''/'' then b
      else if a = [] \<or> last a = CHR ''/'' then a @ b
      else a @ ''/'' @ b)"

definition ingest :: "'fs platform \<Rightarrow> string \<Rightarrow> 'fs \<Rightarrow> 'fs \<times> (error + dataset)" where
  "ingest io file_path fs =
     (if \<not> endswith file_path ''.zip'' then
        (fs, Inl (ValueError ''The provided file is not a .zip file.''))
      else
        (case extractall io file_path ''extracted_data'' fs of
           (fs', Some e) \<Rightarrow> (fs', Inl e)
         | (fs', None) \<Rightarrow>
             (case listdir io ''extracted_data'' fs' of
                Inl e \<Rightarrow> (fs', Inl e)
              | Inr extracted_files \<Rightarrow>
                  (let csv_files = filter (\<lambda>f. endswith f ''.csv'') extracted_files
                   in if length csv_files = 0 then
                        (fs', Inl (FileNotFoundError ''No CSV file found in the extracted data.''))
                      else if length csv_files > 1 then
                        (fs', Inl (ValueError ''Multiple CSV files found. Please specify which one to use.''))
                      else
                        (fs', read_csv io (path_join ''extracted_data'' (csv_files ! 0)) fs')))))"

section \<open>Example data\<close>

text \<open>
  A three-row sample with a numeric and a text column, the same sample with a third,
  numeric column that has no value at all, and a file system whose state is the content
  of the staging directory (file name and parsed table), for an archive that adds nothing
  to it.
\<close>

definition sample_df :: dataset where
  "sample_df =
     \<lparr>row_count = 3,
      columns =
        [\<lparr>name = ''LotFrontage'', data = NumData [Some 1, None, Some 3]\<rparr>,
         \<lparr>name = ''Alley'', data = ObjData [Some (Str ''Grvl''), None, Some (Str ''Grvl'')]\<rparr>]\<rparr>"

definition sample_all_missing :: dataset where
  "sample_all_missing =
     \<lparr>row_count = 3,
      columns =
        [\<lparr>name = ''LotFrontage'', data = NumData [Some 1, None, Some 3]\<rparr>,
         \<lparr>name = ''Alley'', data = ObjData [Some (Str ''Grvl''), None, Some (Str ''Grvl'')]\<rparr>,
         \<lparr>name = ''PoolArea'', data = NumData [None, None, None]\<rparr>]\<rparr>"

definition staging_platform :: "(string \<times> dataset) list platform" where
  "staging_platform =
     \<lparr>extractall = (\<lambda>path dir fs. (fs, None)),
      listdir = (\<lambda>dir fs. Inr (map fst fs)),
      read_csv = (\<lambda>path fs.
        case map_of (map (\<lambda>(f, d). (path_join ''extracted_data'' f, d)) fs) path of
          None \<Rightarrow> Inl (FileNotFoundError path)
        | Some d \<Rightarrow> Inr d)\<rparr>"

section \<open>Properties of the fill strategy\<close>

lemma snd_after: "snd (after logs r f) = r"
  by (simp add: after_def split: sum.splits)

lemma fill_cells_no_missing: "None \<notin> set (fill_cells v xs)"
  by (induction xs) (auto simp: fill_cells_def split: option.splits)

lemma fill_cells_id:
  assumes "None \<notin> set xs"
  shows "fill_cells v xs = xs"
proof -
  have "(case x of None \<Rightarrow> Some v | Some y \<Rightarrow> Some y) = x" if "x \<in> set xs" for x
  proof (cases x)
    case None
    with that assms show ?thesis by simp
  next
    case (Some y)
    then show ?thesis by simp
  qed
  then show ?thesis
    unfolding fill_cells_def by (intro map_idI)
qed

lemma length_fill_cells [simp]: "length (fill_cells v xs) = length xs"
  by (simp add: fill_cells_def)

lemma nth_fill_cells:
  "i < length xs \<Longrightarrow> fill_cells v xs ! i = (case xs ! i of None \<Rightarrow> Some v | Some y \<Rightarrow> Some y)"
  by (simp add: fill_cells_def)

text \<open>
  Filling a column with a statistic of the column is idempotent for every statistic:
  either the statistic is undefined and nothing changes, or no missing cell is left.
\<close>

lemma fillna_stat_idem: "fillna_stat stat (fillna_stat stat xs) = fillna_stat stat xs"
proof (cases "stat xs")
  case None
  then show ?thesis by (simp add: fillna_stat_def)
next
  case (Some m)
  then have eq: "fillna_stat stat xs = fill_cells m xs"
    by (simp add: fillna_stat_def)
  have "fillna_stat stat (fill_cells m xs) = fill_cells m xs"
    by (simp add: fillna_stat_def fill_cells_id fill_cells_no_missing split: option.splits)
  with eq show ?thesis by simp
qed

lemma fill_numeric_idem: "fill_numeric stat (fill_numeric stat d) = fill_numeric stat d"
  by (cases d) (simp_all add: fillna_stat_idem)

lemma fill_numeric_cols_idem:
  "fill_numeric_cols stat (fill_numeric_cols stat df) = fill_numeric_cols stat df"
  by (simp add: fill_numeric_cols_def fill_numeric_idem comp_def)

text \<open>
  C5. The fill strategy with method \<open>constant\<close> and no fill value raises for every
  dataset: the result is the \<open>ValueError\<close> of the missing fill value (the spec's
  \<open>MissingFillValueError\<close>), never a dataset, and the closing log record is not
  written.
\<close>

theorem constant_without_fill_value_raises:
  "handle (FillMissingValuesStrategy ''constant'' None) df =
     ([(INFO, ''Filling missing values using method: constant'')],
      Inl (ValueError must_specify))"
  by (simp add: after_def fillna_def)

text \<open>
  C6. The fill strategy with a method name other than \<open>mean\<close>, \<open>median\<close>, \<open>mode\<close>
  and \<open>constant\<close> does not raise: it returns the input dataset with no cell modified
  and writes one warning between the two informational records.
\<close>

theorem unknown_method_no_op:
  assumes "m \<notin> {''mean'', ''median'', ''mode'', ''constant''}"
  shows "handle (FillMissingValuesStrategy m fv) df =
     ([(INFO, ''Filling missing values using method: '' @ m),
       (WARNING, CHR 0x27 # m @ CHR 0x27 # '' is an unknown method... No missing values handled.''),
       (INFO, ''Missing values filled.'')],
      Inr df)"
  using assms by (simp add: Let_def)

theorem unknown_method_no_op_witness:
  "''average'' \<notin> {''mean'', ''median'', ''mode'', ''constant''}
   \<and> handle (FillMissingValuesStrategy ''average'' None) sample_df =
     ([(INFO, ''Filling missing values using method: average''),
       (WARNING, CHR 0x27 # ''average'' @ CHR 0x27 # '' is an unknown method... No missing values handled.''),
       (INFO, ''Missing values filled.'')],
      Inr sample_df)"
  using unknown_method_no_op [of "''average''" None sample_df] by simp

text \<open>
  C9. Mean fill is idempotent: the first application returns a dataset, and applying the
  strategy to that dataset returns it unchanged.
\<close>

theorem mean_fill_idempotent:
  "\<exists>out. snd (handle (FillMissingValuesStrategy ''mean'' fv) df) = Inr out
         \<and> snd (handle (FillMissingValuesStrategy ''mean'' fv) out) = Inr out"
  by (simp add: fill_numeric_cols_idem)

lemma length_fillna_stat [simp]: "length (fillna_stat stat xs) = length xs"
  by (simp add: fillna_stat_def split: option.splits)

lemma fillna_stat_present:
  assumes "i < length xs" and "xs ! i \<noteq> None"
  shows "fillna_stat stat xs ! i = xs ! i"
  using assms by (auto simp: fillna_stat_def nth_fill_cells split: option.splits)

lemma fillna_stat_missing:
  assumes "i < length xs" and "xs ! i = None" and "stat xs = Some m"
  shows "fillna_stat stat xs ! i = Some m"
  using assms by (simp add: fillna_stat_def nth_fill_cells)

lemma fillna_stat_undefined: "stat xs = None \<Longrightarrow> fillna_stat stat xs = xs"
  by (simp add: fillna_stat_def)

lemma mean_Some:
  "present xs \<noteq> [] \<Longrightarrow> mean xs = Some (sum_list (present xs) / of_nat (length (present xs)))"
  by (simp add: mean_def Let_def)

lemma mean_None: "present xs = [] \<Longrightarrow> mean xs = None"
  by (simp add: mean_def)

lemma median_None: "present xs = [] \<Longrightarrow> median xs = None"
  by (simp add: median_def)

lemma sort_not_Nil: "ps \<noteq> [] \<Longrightarrow> sort ps \<noteq> []"
  by (metis length_sort length_0_conv)

lemma median_Some:
  assumes "present xs \<noteq> []"
  shows "\<exists>s. median xs = Some s"
proof (cases "odd (length (present xs))")
  case True
  with assms have "median xs = Some (sort (present xs) ! (length (present xs) div 2))"
    by (simp add: median_def Let_def sort_not_Nil)
  then show ?thesis ..
next
  case False
  with assms have "median xs =
      Some ((sort (present xs) ! (length (present xs) div 2 - 1)
             + sort (present xs) ! (length (present xs) div 2)) / 2)"
    by (simp add: median_def Let_def sort_not_Nil)
  then show ?thesis ..
qed

lemma columns_fill_numeric_cols:
  "j < length (columns df) \<Longrightarrow>
     columns (fill_numeric_cols stat df) ! j =
       (columns df ! j)\<lparr>data := fill_numeric stat (data (columns df ! j))\<rparr>"
  by (simp add: fill_numeric_cols_def)

lemma names_fill_numeric_cols:
  "map name (columns (fill_numeric_cols stat df)) = map name (columns df)"
  by (simp add: fill_numeric_cols_def comp_def)

lemma row_count_fill_numeric_cols: "row_count (fill_numeric_cols stat df) = row_count df"
  by (simp add: fill_numeric_cols_def)

text \<open>
  C2. Mean fill returns a dataset with the same rows and column names in which every text
  column is unchanged and, in every numeric column, no present cell changes and, when the
  column has a non-missing cell, each missing cell holds the mean of the non-missing
  cells: their sum divided by their number. On the sample, the numeric column
  \<open>[1, missing, 3]\<close> becomes \<open>[1, 2, 3]\<close> next to a text column whose missing cell stays.
\<close>

theorem mean_fill_spec:
  "\<exists>out. snd (handle (FillMissingValuesStrategy ''mean'' fv) df) = Inr out
     \<and> row_count out = row_count df
     \<and> map name (columns out) = map name (columns df)
     \<and> (\<forall>j < length (columns df).
          case data (columns df ! j) of
            ObjData xs \<Rightarrow> data (columns out ! j) = ObjData xs
          | NumData xs \<Rightarrow>
              (\<exists>ys. data (columns out ! j) = NumData ys \<and> length ys = length xs
                 \<and> (\<forall>i < length xs.
                      (xs ! i \<noteq> None \<longrightarrow> ys ! i = xs ! i)
                    \<and> (xs ! i = None \<and> present xs \<noteq> [] \<longrightarrow>
                         ys ! i = Some (sum_list (present xs) / of_nat (length (present xs)))))))"
proof -
  let ?out = "fill_numeric_cols mean df"
  have res: "snd (handle (FillMissingValuesStrategy ''mean'' fv) df) = Inr ?out"
    by simp
  have cols: "case data (columns df ! j) of
            ObjData xs \<Rightarrow> data (columns ?out ! j) = ObjData xs
          | NumData xs \<Rightarrow>
              (\<exists>ys. data (columns ?out ! j) = NumData ys \<and> length ys = length xs
                 \<and> (\<forall>i < length xs.
                      (xs ! i \<noteq> None \<longrightarrow> ys ! i = xs ! i)
                    \<and> (xs ! i = None \<and> present xs \<noteq> [] \<longrightarrow>
                         ys ! i = Some (sum_list (present xs) / of_nat (length (present xs))))))"
    if j: "j < length (columns df)" for j
  proof (cases "data (columns df ! j)")
    case (ObjData xs)
    then show ?thesis
      using j by (simp add: columns_fill_numeric_cols)
  next
    case (NumData xs)
    have "data (columns ?out ! j) = NumData (fillna_stat mean xs)"
      using j NumData by (simp add: columns_fill_numeric_cols)
    moreover have "length (fillna_stat mean xs) = length xs"
      by simp
    moreover have "\<forall>i < length xs.
        (xs ! i \<noteq> None \<longrightarrow> fillna_stat mean xs ! i = xs ! i)
      \<and> (xs ! i = None \<and> present xs \<noteq> [] \<longrightarrow>
           fillna_stat mean xs ! i = Some (sum_list (present xs) / of_nat (length (present xs))))"
      by (auto simp: fillna_stat_present fillna_stat_missing mean_Some)
    ultimately show ?thesis
      using NumData by simp
  qed
  from res cols show ?thesis
    using row_count_fill_numeric_cols names_fill_numeric_cols by blast
qed


theorem mean_fill_spec_witness:
  "\<exists>out. snd (handle (FillMissingValuesStrategy ''mean'' None) sample_df) = Inr out
     \<and> (\<exists>ys. data (columns out ! 0) = NumData ys \<and> length ys = 3
            \<and> ys ! 0 = Some 1 \<and> ys ! 1 = Some 2 \<and> ys ! 2 = Some 3)
     \<and> data (columns out ! 1) = ObjData [Some (Str ''Grvl''), None, Some (Str ''Grvl'')]"
proof -
  let ?xs = "[Some 1, None, Some 3] :: rat option list"
  from mean_fill_spec [of None sample_df] obtain out where
    res: "snd (handle (FillMissingValuesStrategy ''mean'' None) sample_df) = Inr out" and
    cols: "\<forall>j < length (columns sample_df).
          case data (columns sample_df ! j) of
            ObjData xs \<Rightarrow> data (columns out ! j) = ObjData xs
          | NumData xs \<Rightarrow>
              (\<exists>ys. data (columns out ! j) = NumData ys \<and> length ys = length xs
                 \<and> (\<forall>i < length xs.
                      (xs ! i \<noteq> None \<longrightarrow> ys ! i = xs ! i)
                    \<and> (xs ! i = None \<and> present xs \<noteq> [] \<longrightarrow>
                         ys ! i = Some (sum_list (present xs) / of_nat (length (present xs))))))"
    by blast
  have len: "length (columns sample_df) = 2"
    and c0: "data (columns sample_df ! 0) = NumData ?xs"
    and c1: "data (columns sample_df ! 1) = ObjData [Some (Str ''Grvl''), None, Some (Str ''Grvl'')]"
    by (simp_all add: sample_df_def)
  have ps: "present ?xs = [1, 3]"
    by (simp add: present_def List.map_filter_def)
  have "0 < length (columns sample_df)" and j1: "1 < length (columns sample_df)"
    using len by simp_all
  from cols [rule_format, OF this(1)] obtain ys where
    ys: "data (columns out ! 0) = NumData ys" "length ys = length ?xs" and
    cells: "\<forall>i < length ?xs.
        (?xs ! i \<noteq> None \<longrightarrow> ys ! i = ?xs ! i)
      \<and> (?xs ! i = None \<and> present ?xs \<noteq> [] \<longrightarrow>
           ys ! i = Some (sum_list (present ?xs) / of_nat (length (present ?xs))))"
    unfolding c0 coldata.case by blast
  from cells have "ys ! 0 = Some 1" by simp
  moreover from cells [rule_format, of 1] ps have "ys ! 1 = Some 2" by simp
  moreover from cells [rule_format, of 2] have "ys ! 2 = Some 3" by simp
  moreover from cols [rule_format, OF j1]
  have "data (columns out ! 1) = ObjData [Some (Str ''Grvl''), None, Some (Str ''Grvl'')]"
    unfolding c1 coldata.case .
  ultimately show ?thesis
    using res ys by auto
qed

text \<open>
  C4, as stated, asks for a diagnostic about the skipped column. On the sample with an
  all-missing numeric column the log holds the two informational records that every run
  writes, and nothing else.
\<close>

theorem statistic_fill_no_diagnostic_counterexample:
  "handle (FillMissingValuesStrategy ''mean'' None) sample_all_missing =
     ([(INFO, ''Filling missing values using method: mean''),
       (INFO, ''Missing values filled.'')],
      Inr \<lparr>row_count = 3,
           columns =
             [\<lparr>name = ''LotFrontage'', data = NumData [Some 1, Some 2, Some 3]\<rparr>,
              \<lparr>name = ''Alley'', data = ObjData [Some (Str ''Grvl''), None, Some (Str ''Grvl'')]\<rparr>,
              \<lparr>name = ''PoolArea'', data = NumData [None, None, None]\<rparr>]\<rparr>)"
  by (simp add: sample_all_missing_def fill_numeric_cols_def fillna_stat_def mean_def
      present_def List.map_filter_def fill_cells_def)

text \<open>
  C4, amended. For the methods \<open>mean\<close> and \<open>median\<close> the operation does not fail and
  writes the two informational records only; a numeric column without a non-missing cell
  is left as it is, every other numeric column has its missing cells filled with its
  statistic, and text columns are unchanged.
\<close>

theorem statistic_fill_skips_all_missing:
  assumes "m = ''mean'' \<or> m = ''median''"
  shows "\<exists>out. handle (FillMissingValuesStrategy m fv) df =
           ([(INFO, ''Filling missing values using method: '' @ m),
             (INFO, ''Missing values filled.'')],
            Inr out)
     \<and> row_count out = row_count df
     \<and> map name (columns out) = map name (columns df)
     \<and> (\<forall>j < length (columns df).
          case data (columns df ! j) of
            ObjData xs \<Rightarrow> data (columns out ! j) = ObjData xs
          | NumData xs \<Rightarrow>
              (present xs = [] \<longrightarrow> data (columns out ! j) = NumData xs)
            \<and> (present xs \<noteq> [] \<longrightarrow>
                 (\<exists>s. (if m = ''mean'' then mean xs else median xs) = Some s
                    \<and> data (columns out ! j) = NumData (fill_cells s xs))))"
proof -
  define stat where "stat = (if m = ''mean'' then mean else median)"
  let ?out = "fill_numeric_cols stat df"
  have res: "handle (FillMissingValuesStrategy m fv) df =
           ([(INFO, ''Filling missing values using method: '' @ m),
             (INFO, ''Missing values filled.'')],
            Inr ?out)"
    using assms by (auto simp: stat_def)
  have undefined: "stat xs = None" if "present xs = []" for xs
    using that by (simp add: stat_def mean_None median_None)
  have defined: "\<exists>s. stat xs = Some s" if "present xs \<noteq> []" for xs
    using that by (simp add: stat_def mean_Some median_Some)
  have cols: "case data (columns df ! j) of
            ObjData xs \<Rightarrow> data (columns ?out ! j) = ObjData xs
          | NumData xs \<Rightarrow>
              (present xs = [] \<longrightarrow> data (columns ?out ! j) = NumData xs)
            \<and> (present xs \<noteq> [] \<longrightarrow>
                 (\<exists>s. stat xs = Some s \<and> data (columns ?out ! j) = NumData (fill_cells s xs)))"
    if j: "j < length (columns df)" for j
  proof (cases "data (columns df ! j)")
    case (ObjData xs)
    then show ?thesis
      using j by (simp add: columns_fill_numeric_cols)
  next
    case (NumData xs)
    have out: "data (columns ?out ! j) = NumData (fillna_stat stat xs)"
      using j NumData by (simp add: columns_fill_numeric_cols)
    have "data (columns ?out ! j) = NumData xs" if "present xs = []"
      using out undefined [OF that] by (simp add: fillna_stat_undefined)
    moreover have "\<exists>s. stat xs = Some s \<and> data (columns ?out ! j) = NumData (fill_cells s xs)"
      if "present xs \<noteq> []"
      using out defined [OF that] by (auto simp: fillna_stat_def)
    ultimately show ?thesis
      using NumData by simp
  qed
  have stat_eq: "(if m = ''mean'' then mean xs else median xs) = stat xs" for xs
    by (simp add: stat_def)
  show ?thesis
    unfolding stat_eq
    using res cols row_count_fill_numeric_cols [of stat df] names_fill_numeric_cols [of stat df]
    by blast
qed


theorem statistic_fill_skips_all_missing_witness:
  "(''median'' = ''mean'' \<or> ''median'' = ''median'')
   \<and> (\<exists>out. handle (FillMissingValuesStrategy ''median'' None) sample_all_missing =
           ([(INFO, ''Filling missing values using method: median''),
             (INFO, ''Missing values filled.'')],
            Inr out)
        \<and> data (columns out ! 0) = NumData [Some 1, Some 2, Some 3]
        \<and> data (columns out ! 2) = NumData [None, None, None])"
proof -
  let ?xs = "[Some 1, None, Some 3] :: rat option list"
  let ?zs = "[None, None, None] :: rat option list"
  have m: "''median'' = ''mean'' \<or> ''median'' = ''median''"
    by simp
  from statistic_fill_skips_all_missing [OF m, of None sample_all_missing] obtain out where
    res: "handle (FillMissingValuesStrategy ''median'' None) sample_all_missing =
           ([(INFO, ''Filling missing values using method: '' @ ''median''),
             (INFO, ''Missing values filled.'')],
            Inr out)" and
    cols: "\<forall>j < length (columns sample_all_missing).
          case data (columns sample_all_missing ! j) of
            ObjData xs \<Rightarrow> data (columns out ! j) = ObjData xs
          | NumData xs \<Rightarrow>
              (present xs = [] \<longrightarrow> data (columns out ! j) = NumData xs)
            \<and> (present xs \<noteq> [] \<longrightarrow>
                 (\<exists>s. (if ''median'' = ''mean'' then mean xs else median xs) = Some s
                    \<and> data (columns out ! j) = NumData (fill_cells s xs)))"
    by blast
  have j0: "0 < length (columns sample_all_missing)"
    and j2: "2 < length (columns sample_all_missing)"
    and c0: "data (columns sample_all_missing ! 0) = NumData ?xs"
    and c2: "data (columns sample_all_missing ! 2) = NumData ?zs"
    by (simp_all add: sample_all_missing_def)
  have p0: "present ?xs = [1, 3]" and p2: "present ?zs = []"
    by (simp_all add: present_def List.map_filter_def)
  have med: "median ?xs = Some 2"
    by (simp add: median_def p0)
  from cols [rule_format, OF j0] p0 med
  have "data (columns out ! 0) = NumData (fill_cells 2 ?xs)"
    unfolding c0 coldata.case by simp
  then have "data (columns out ! 0) = NumData [Some 1, Some 2, Some 3]"
    by (simp add: fill_cells_def)
  moreover from cols [rule_format, OF j2] p2
  have "data (columns out ! 2) = NumData ?zs"
    unfolding c2 coldata.case by simp
  ultimately show ?thesis
    using res by simp
qed

subsection \<open>Mode fill\<close>

lemma fold_max_ge: "(a::nat) \<le> fold max xs a"
  by (induction xs arbitrary: a) (auto intro: order_trans [OF max.cobounded2])

lemma fold_max_upper: "x \<in> set xs \<Longrightarrow> (x::nat) \<le> fold max xs a"
proof (induction xs arbitrary: a)
  case Nil
  then show ?case by simp
next
  case (Cons y ys)
  show ?case
  proof (cases "x = y")
    case True
    have "x \<le> max y a" using True by simp
    also have "\<dots> \<le> fold max ys (max y a)" by (rule fold_max_ge)
    finally show ?thesis by simp
  next
    case False
    with Cons show ?thesis by simp
  qed
qed

lemma fold_max_mem: "fold max xs (a::nat) \<in> insert a (set xs)"
  by (induction xs arbitrary: a) (auto simp: max_def)

lemma count_le_max_count: "count_list ps v \<le> max_count ps"
proof (cases "v \<in> set ps")
  case True
  then have "count_list ps v \<in> set (map (count_list ps) ps)" by simp
  then show ?thesis
    unfolding max_count_def by (rule fold_max_upper)
next
  case False
  then show ?thesis by (simp add: count_list_0_iff)
qed

lemma max_count_attained:
  assumes "ps \<noteq> []"
  shows "\<exists>v \<in> set ps. count_list ps v = max_count ps"
proof -
  from assms obtain p where p: "p \<in> set ps" by (cases ps) auto
  then have "count_list ps p \<noteq> 0" by (simp add: count_list_0_iff)
  with count_le_max_count [of ps p] have pos: "max_count ps \<noteq> 0" by simp
  have "max_count ps \<in> insert 0 (set (map (count_list ps) ps))"
    unfolding max_count_def by (rule fold_max_mem)
  with pos show ?thesis by auto
qed

lemma set_most_frequent:
  "set (most_frequent ps) = {v \<in> set ps. count_list ps v = max_count ps}"
  by (auto simp: most_frequent_def)

lemma most_frequent_not_Nil: "ps \<noteq> [] \<Longrightarrow> most_frequent ps \<noteq> []"
  using max_count_attained [of ps] set_most_frequent [of ps]
  by (metis (mono_tags, lifting) empty_iff mem_Collect_eq set_empty)

lemma most_frequent_Nil [simp]: "most_frequent [] = []"
  by (simp add: most_frequent_def)

lemma most_frequent_maximal:
  assumes "v \<in> set (most_frequent ps)"
  shows "v \<in> set ps \<and> (\<forall>w. count_list ps w \<le> count_list ps v)"
  using assms count_le_max_count [of ps] by (simp add: set_most_frequent)

lemma all_nums_Some: "all_nums vs = Some ns \<Longrightarrow> vs = map Num ns"
  by (induction vs arbitrary: ns rule: all_nums.induct) auto

lemma all_strs_Some: "all_strs vs = Some ss \<Longrightarrow> vs = map Str ss"
  by (induction vs arbitrary: ss rule: all_strs.induct) auto

lemma set_sort_modes: "set (sort_modes vs) = set vs"
  by (auto simp: sort_modes_def split: option.splits dest!: all_nums_Some all_strs_Some)


lemma present_Cons:
  "present (x # xs) = (case x of None \<Rightarrow> present xs | Some y \<Rightarrow> y # present xs)"
  by (simp add: present_def List.map_filter_def split: option.splits)

lemma present_Nil [simp]: "present [] = []"
  by (simp add: present_def List.map_filter_def)

lemma present_map_option: "present (map (map_option f) xs) = map f (present xs)"
  by (induction xs) (auto simp: present_Cons split: option.splits)

lemma set_present: "set (present xs) = {v. Some v \<in> set xs}"
  by (induction xs) (auto simp: present_Cons split: option.splits)

lemma count_list_map_Num:
  "count_list (map Num ps) w = (case w of Num y \<Rightarrow> count_list ps y | Str s \<Rightarrow> 0)"
proof (cases w)
  case (Num y)
  have "inj Num" by (simp add: inj_def)
  then show ?thesis
    using Num by (simp add: count_list_map_conv)
next
  case (Str s)
  then have "w \<notin> set (map Num ps)" by auto
  with Str show ?thesis by simp
qed

lemma mode_member:
  assumes "v \<in> set (mode d)"
  shows "v \<in> set (present (cells d))
       \<and> (\<forall>w. count_list (present (cells d)) w \<le> count_list (present (cells d)) v)"
proof (cases d)
  case (NumData xs)
  with assms obtain x where v: "v = Num x" and x: "x \<in> set (most_frequent (present xs))"
    by auto
  from most_frequent_maximal [OF x]
  have mem: "x \<in> set (present xs)" and top: "count_list (present xs) y \<le> count_list (present xs) x" for y
    by simp_all
  have "count_list (map Num (present xs)) w \<le> count_list (map Num (present xs)) (Num x)" for w
    using top by (cases w) (simp_all add: count_list_map_Num)
  with mem show ?thesis
    using NumData v by (simp add: present_map_option)
next
  case (ObjData xs)
  with assms have "v \<in> set (most_frequent (present xs))"
    by (simp add: set_sort_modes)
  from most_frequent_maximal [OF this] show ?thesis
    using ObjData by simp
qed

lemma mode_not_Nil:
  assumes "present (cells d) \<noteq> []"
  shows "mode d \<noteq> []"
proof (cases d)
  case (NumData xs)
  with assms have "present xs \<noteq> []"
    by (simp add: present_map_option)
  then have "most_frequent (present xs) \<noteq> []"
    by (rule most_frequent_not_Nil)
  then have "sort (most_frequent (present xs)) \<noteq> []"
    by (rule sort_not_Nil)
  then show ?thesis
    using NumData by simp
next
  case (ObjData xs)
  with assms have "most_frequent (present xs) \<noteq> []"
    by (simp add: most_frequent_not_Nil)
  then have "set (sort_modes (most_frequent (present xs))) \<noteq> {}"
    by (simp add: set_sort_modes)
  then show ?thesis
    using ObjData by auto
qed

lemma mode_Nil: "present (cells d) = [] \<Longrightarrow> mode d = []"
  by (cases d) (simp_all add: present_map_option sort_modes_def)

lemma fill_cells_map_option:
  "map (map_option f) (fill_cells x xs) = fill_cells (f x) (map (map_option f) xs)"
  by (simp add: fill_cells_def split: option.splits)

lemma fillna_value_mode:
  assumes "v \<in> set (mode d)"
  shows "cells (fillna_value v d) = fill_cells v (cells d) \<and> kind_of (fillna_value v d) = kind_of d"
proof (cases d)
  case (NumData xs)
  with assms obtain x where "v = Num x" by auto
  with NumData show ?thesis
    by (simp add: fill_cells_map_option)
next
  case (ObjData xs)
  then show ?thesis by simp
qed

lemma fill_mode_col_ok:
  assumes "present (cells (data c)) \<noteq> []"
  shows "\<exists>v. fill_mode_col c = Inr (c\<lparr>data := fillna_value v (data c)\<rparr>) \<and> v \<in> set (mode (data c))"
proof -
  from mode_not_Nil [OF assms] obtain v vs where "mode (data c) = v # vs"
    by (cases "mode (data c)") auto
  then show ?thesis
    by (auto simp: fill_mode_col_def iloc0_def)
qed

lemma fill_mode_col_raises:
  assumes "present (cells (data c)) = []"
  shows "fill_mode_col c = Inl (IndexError ''single positional indexer is out-of-bounds'')"
  using mode_Nil [OF assms] by (simp add: fill_mode_col_def iloc0_def)

lemma fill_mode_cols_ok:
  assumes "\<forall>c \<in> set cs. present (cells (data c)) \<noteq> []"
  shows "\<exists>cs'. fill_mode_cols cs = Inr cs'
     \<and> list_all2 (\<lambda>c c'. \<exists>v. c' = c\<lparr>data := fillna_value v (data c)\<rparr> \<and> v \<in> set (mode (data c))) cs cs'"
  using assms
proof (induction cs)
  case Nil
  then show ?case by simp
next
  case (Cons c cs)
  from Cons.prems obtain v where
    c: "fill_mode_col c = Inr (c\<lparr>data := fillna_value v (data c)\<rparr>)" "v \<in> set (mode (data c))"
    using fill_mode_col_ok [of c] by auto
  from Cons obtain cs' where
    cs: "fill_mode_cols cs = Inr cs'"
      "list_all2 (\<lambda>c c'. \<exists>v. c' = c\<lparr>data := fillna_value v (data c)\<rparr> \<and> v \<in> set (mode (data c))) cs cs'"
    by auto
  from c cs show ?case
    by auto
qed


lemma fill_mode_cols_raises:
  assumes "\<exists>c \<in> set cs. present (cells (data c)) = []"
  shows "fill_mode_cols cs = Inl (IndexError ''single positional indexer is out-of-bounds'')"
  using assms
proof (induction cs)
  case Nil
  then show ?case by simp
next
  case (Cons c cs)
  show ?case
  proof (cases "present (cells (data c)) = []")
    case True
    then show ?thesis
      by (simp add: fill_mode_col_raises)
  next
    case False
    with Cons.prems have "\<exists>c \<in> set cs. present (cells (data c)) = []"
      by simp
    with Cons.IH have "fill_mode_cols cs = Inl (IndexError ''single positional indexer is out-of-bounds'')"
      by simp
    moreover from fill_mode_col_ok [OF False] obtain c' where "fill_mode_col c = Inr c'"
      by blast
    ultimately show ?thesis
      by simp
  qed
qed

text \<open>
  C3. Mode fill is to complete also when a column has no non-missing cell, skipping that
  column. The code does not: on the sample with the all-missing column \<open>PoolArea\<close>
  the operation raises the \<open>IndexError\<close> of \<^verbatim>\<open>.mode().iloc[0]\<close> after its first log
  record and returns no dataset, although the other two columns could be filled. The
  mean and median branches complete on the same sample.
\<close>

theorem mode_fill_all_missing_raises:
  "handle (FillMissingValuesStrategy ''mode'' None) sample_all_missing =
     ([(INFO, ''Filling missing values using method: mode'')],
      Inl (IndexError ''single positional indexer is out-of-bounds''))"
proof -
  have "present (cells (NumData [None, None, None])) = []"
    by (simp add: present_def List.map_filter_def)
  then have "\<exists>c \<in> set (columns sample_all_missing). present (cells (data c)) = []"
    by (simp add: sample_all_missing_def)
  then show ?thesis
    by (simp add: fill_mode_cols_raises after_def)
qed

text \<open>
  What the mode branch does where it completes: for a dataset in which every column has
  a non-missing cell it replaces the missing cells of every column by a value of that
  column that no other value of the column outnumbers; present cells, names, kinds and
  the row count are unchanged.
\<close>

lemma mode_fill_complete_columns:
  assumes "\<forall>c \<in> set (columns df). present (cells (data c)) \<noteq> []"
  shows "\<exists>out. handle (FillMissingValuesStrategy ''mode'' fv) df =
           ([(INFO, ''Filling missing values using method: mode''),
             (INFO, ''Missing values filled.'')],
            Inr out)
     \<and> row_count out = row_count df
     \<and> map name (columns out) = map name (columns df)
     \<and> (\<forall>j < length (columns df).
          \<exists>v. v \<in> set (present (cells (data (columns df ! j))))
             \<and> (\<forall>w. count_list (present (cells (data (columns df ! j)))) w
                      \<le> count_list (present (cells (data (columns df ! j)))) v)
             \<and> cells (data (columns out ! j)) = fill_cells v (cells (data (columns df ! j)))
             \<and> kind_of (data (columns out ! j)) = kind_of (data (columns df ! j)))"
proof -
  from fill_mode_cols_ok [OF assms] obtain cs' where
    ok: "fill_mode_cols (columns df) = Inr cs'" and
    rel: "list_all2 (\<lambda>c c'. \<exists>v. c' = c\<lparr>data := fillna_value v (data c)\<rparr> \<and> v \<in> set (mode (data c)))
            (columns df) cs'"
    by blast
  let ?out = "df\<lparr>columns := cs'\<rparr>"
  have res: "handle (FillMissingValuesStrategy ''mode'' fv) df =
           ([(INFO, ''Filling missing values using method: mode''),
             (INFO, ''Missing values filled.'')],
            Inr ?out)"
    using ok by (simp add: after_def)
  have len: "length cs' = length (columns df)"
    using rel by (simp add: list_all2_lengthD)
  have col: "\<exists>v. v \<in> set (present (cells (data (columns df ! j))))
             \<and> (\<forall>w. count_list (present (cells (data (columns df ! j)))) w
                      \<le> count_list (present (cells (data (columns df ! j)))) v)
             \<and> cells (data (cs' ! j)) = fill_cells v (cells (data (columns df ! j)))
             \<and> kind_of (data (cs' ! j)) = kind_of (data (columns df ! j))
             \<and> name (cs' ! j) = name (columns df ! j)"
    if j: "j < length (columns df)" for j
  proof -
    from list_all2_nthD [OF rel j] obtain v where
      c': "cs' ! j = (columns df ! j)\<lparr>data := fillna_value v (data (columns df ! j))\<rparr>" and
      v: "v \<in> set (mode (data (columns df ! j)))"
      by blast
    from mode_member [OF v] fillna_value_mode [OF v] c' show ?thesis
      by auto
  qed
  have names: "map name cs' = map name (columns df)"
  proof (rule nth_equalityI)
    show "length (map name cs') = length (map name (columns df))"
      using len by simp
  next
    fix i
    assume "i < length (map name cs')"
    then have i: "i < length (columns df)"
      using len by simp
    from col [OF i] have "name (cs' ! i) = name (columns df ! i)"
      by blast
    then show "map name cs' ! i = map name (columns df) ! i"
      using i len by simp
  qed
  from res names col show ?thesis
    by (intro exI [of _ ?out]) auto
qed


lemma mode_fill_complete_columns_example:
  "present (cells (data (columns sample_df ! 0))) \<noteq> []
   \<and> present (cells (data (columns sample_df ! 1))) \<noteq> []
   \<and> length (columns sample_df) = 2
   \<and> (\<exists>out. handle (FillMissingValuesStrategy ''mode'' None) sample_df =
           ([(INFO, ''Filling missing values using method: mode''),
             (INFO, ''Missing values filled.'')],
            Inr out)
        \<and> cells (data (columns out ! 1)) =
            [Some (Str ''Grvl''), Some (Str ''Grvl''), Some (Str ''Grvl'')])"
proof -
  let ?alley = "[Some (Str ''Grvl''), None, Some (Str ''Grvl'')]"
  have full: "\<forall>c \<in> set (columns sample_df). present (cells (data c)) \<noteq> []"
    by (simp add: sample_df_def present_def List.map_filter_def)
  have j: "1 < length (columns sample_df)"
    and c: "cells (data (columns sample_df ! 1)) = ?alley"
    by (simp_all add: sample_df_def)
  have p: "set (present ?alley) = {Str ''Grvl''}"
    by (simp add: present_def List.map_filter_def)
  from mode_fill_complete_columns [OF full, of None] obtain out where
    res: "handle (FillMissingValuesStrategy ''mode'' None) sample_df =
           ([(INFO, ''Filling missing values using method: mode''),
             (INFO, ''Missing values filled.'')],
            Inr out)" and
    cols: "\<forall>j < length (columns sample_df).
          \<exists>v. v \<in> set (present (cells (data (columns sample_df ! j))))
             \<and> (\<forall>w. count_list (present (cells (data (columns sample_df ! j)))) w
                      \<le> count_list (present (cells (data (columns sample_df ! j)))) v)
             \<and> cells (data (columns out ! j)) = fill_cells v (cells (data (columns sample_df ! j)))
             \<and> kind_of (data (columns out ! j)) = kind_of (data (columns sample_df ! j))"
    by blast
  from cols [rule_format, OF j] obtain v where
    "v \<in> set (present ?alley)" and "cells (data (columns out ! 1)) = fill_cells v ?alley"
    unfolding c by blast
  with p have "cells (data (columns out ! 1)) = fill_cells (Str ''Grvl'') ?alley"
    by simp
  then have "cells (data (columns out ! 1)) =
      [Some (Str ''Grvl''), Some (Str ''Grvl''), Some (Str ''Grvl'')]"
    by (simp add: fill_cells_def)
  moreover have "present (cells (data (columns sample_df ! 0))) \<noteq> []"
    and "present (cells (data (columns sample_df ! 1))) \<noteq> []"
    and "length (columns sample_df) = 2"
    by (simp_all add: sample_df_def present_def List.map_filter_def)
  ultimately show ?thesis
    using res by blast
qed

section \<open>Properties of the drop strategy\<close>

lemma enough_Some: "enough (Some t) xs \<longleftrightarrow> t \<le> int (count_notna xs)"
  by (simp add: enough_def)

lemma enough_None: "enough None xs \<longleftrightarrow> False"
  by (simp add: enough_def)

lemma kept_rows_None: "kept_rows None df = []"
  by (simp add: kept_rows_def enough_None)

lemma length_cells_take_rows [simp]: "length (cells (take_rows ks d)) = length ks"
  by (cases d) simp_all

lemma kind_of_take_rows [simp]: "kind_of (take_rows ks d) = kind_of d"
  by (cases d) simp_all

lemma nth_cells_take_rows:
  assumes "j < length ks" and "ks ! j < length (cells d)"
  shows "cells (take_rows ks d) ! j = cells d ! (ks ! j)"
  using assms by (cases d) simp_all

lemma kept_rows_bound: "k \<in> set (kept_rows thresh df) \<Longrightarrow> k < row_count df"
  by (simp add: kept_rows_def)

lemma wf_dataset_length:
  "wf_dataset df \<Longrightarrow> c \<in> set (columns df) \<Longrightarrow> length (cells (data c)) = row_count df"
  by (simp add: wf_dataset_def list_all_iff)

lemma row_drop_rows:
  assumes wf: "wf_dataset df" and j: "j < length (kept_rows thresh df)"
  shows "row (drop_rows thresh df) j = row df (kept_rows thresh df ! j)"
proof -
  let ?ks = "kept_rows thresh df"
  have bound: "?ks ! j < row_count df"
    using j kept_rows_bound [of "?ks ! j" thresh df] by simp
  have "cells (take_rows ?ks (data c)) ! j = cells (data c) ! (?ks ! j)"
    if "c \<in> set (columns df)" for c
    using j bound wf_dataset_length [OF wf that] by (simp add: nth_cells_take_rows)
  then show ?thesis
    by (simp add: row_def drop_rows_def Let_def)
qed

lemma names_drop_rows: "map name (columns (drop_rows thresh df)) = map name (columns df)"
  by (simp add: drop_rows_def Let_def comp_def)

lemma kinds_drop_rows:
  "map (\<lambda>c. kind_of (data c)) (columns (drop_rows thresh df)) =
     map (\<lambda>c. kind_of (data c)) (columns df)"
  by (simp add: drop_rows_def Let_def comp_def)

lemma wf_drop_rows: "wf_dataset df \<Longrightarrow> wf_dataset (drop_rows thresh df)"
  by (simp add: wf_dataset_def drop_rows_def Let_def list_all_iff comp_def)

lemma wf_drop_columns: "wf_dataset df \<Longrightarrow> wf_dataset (drop_columns thresh df)"
  by (simp add: wf_dataset_def drop_columns_def list_all_iff distinct_map_filter)

text \<open>
  With a threshold \<open>T\<close> the drop strategy does what its documentation says, on every
  well-formed dataset. With axis 0 the output has the same columns (names and kinds), and
  its rows are exactly the input rows with at least \<open>T\<close> non-missing cells over all
  columns, in their original order: the positions of these rows, listed in increasing
  order, give row by row the rows of the output. With axis 1 the row count is unchanged
  and the output columns are the input columns with at least \<open>T\<close> non-missing cells, in
  their original order.
\<close>

lemma drop_threshold_spec:
  assumes "wf_dataset df"
  shows "(\<exists>out. snd (handle (DropMissingValuesStrategy 0 (Some T)) df) = Inr out
          \<and> wf_dataset out
          \<and> map name (columns out) = map name (columns df)
          \<and> map (\<lambda>c. kind_of (data c)) (columns out) = map (\<lambda>c. kind_of (data c)) (columns df)
          \<and> (let ks = filter (\<lambda>i. T \<le> int (count_notna (row df i))) [0..<row_count df]
              in row_count out = length ks
               \<and> (\<forall>j < length ks. row out j = row df (ks ! j))))
       \<and> (\<exists>out. snd (handle (DropMissingValuesStrategy 1 (Some T)) df) = Inr out
          \<and> wf_dataset out
          \<and> row_count out = row_count df
          \<and> columns out =
              filter (\<lambda>c. T \<le> int (count_notna (cells (data c)))) (columns df))"
proof (rule conjI)
  let ?thr = "Some T"
  let ?ks = "filter (\<lambda>i. T \<le> int (count_notna (row df i))) [0..<row_count df]"
  have ks: "kept_rows ?thr df = ?ks"
    by (simp add: kept_rows_def enough_Some)
  have res: "snd (handle (DropMissingValuesStrategy 0 ?thr) df) = Inr (drop_rows ?thr df)"
    by (simp add: snd_after dropna_def)
  have count: "row_count (drop_rows ?thr df) = length ?ks"
    using ks by (simp add: drop_rows_def Let_def)
  have rows: "\<forall>j < length ?ks. row (drop_rows ?thr df) j = row df (?ks ! j)"
    using row_drop_rows [OF assms, of _ ?thr] unfolding ks by blast
  from res count rows wf_drop_rows [OF assms, of ?thr] names_drop_rows [of ?thr df]
    kinds_drop_rows [of ?thr df]
  show "\<exists>out. snd (handle (DropMissingValuesStrategy 0 (Some T)) df) = Inr out
          \<and> wf_dataset out
          \<and> map name (columns out) = map name (columns df)
          \<and> map (\<lambda>c. kind_of (data c)) (columns out) = map (\<lambda>c. kind_of (data c)) (columns df)
          \<and> (let ks = ?ks
              in row_count out = length ks
               \<and> (\<forall>j < length ks. row out j = row df (ks ! j)))"
    unfolding Let_def by blast
next
  let ?thr = "Some T"
  have res: "snd (handle (DropMissingValuesStrategy 1 ?thr) df) = Inr (drop_columns ?thr df)"
    by (simp add: snd_after dropna_def)
  have cols: "columns (drop_columns ?thr df) =
              filter (\<lambda>c. T \<le> int (count_notna (cells (data c)))) (columns df)"
    by (simp add: drop_columns_def enough_Some)
  have "row_count (drop_columns ?thr df) = row_count df"
    by (simp add: drop_columns_def)
  with res cols wf_drop_columns [OF assms, of ?thr]
  show "\<exists>out. snd (handle (DropMissingValuesStrategy 1 (Some T)) df) = Inr out
          \<and> wf_dataset out
          \<and> row_count out = row_count df
          \<and> columns out =
              filter (\<lambda>c. T \<le> int (count_notna (cells (data c)))) (columns df)"
    by blast
qed

lemma drop_threshold_example:
  "wf_dataset sample_all_missing
   \<and> (\<exists>out. snd (handle (DropMissingValuesStrategy 0 (Some 2)) sample_all_missing) = Inr out
          \<and> row_count out = 2
          \<and> row out 0 = row sample_all_missing 0
          \<and> row out 1 = row sample_all_missing 2)
   \<and> (\<exists>out. snd (handle (DropMissingValuesStrategy 1 (Some 2)) sample_all_missing) = Inr out
          \<and> columns out = take 2 (columns sample_all_missing))"
proof -
  have wf: "wf_dataset sample_all_missing"
    by code_simp
  have ks: "filter (\<lambda>i. 2 \<le> int (count_notna (row sample_all_missing i)))
              [0..<row_count sample_all_missing] = [0, 2]"
    by code_simp
  have cs: "filter (\<lambda>c. 2 \<le> int (count_notna (cells (data c))))
              (columns sample_all_missing) = take 2 (columns sample_all_missing)"
    by code_simp
  from drop_threshold_spec [OF wf, of 2] obtain out out' where
    rows: "snd (handle (DropMissingValuesStrategy 0 (Some 2)) sample_all_missing) = Inr out"
      "row_count out = length [0::nat, 2]"
      "\<forall>j < length [0::nat, 2]. row out j = row sample_all_missing ([0, 2] ! j)" and
    cols: "snd (handle (DropMissingValuesStrategy 1 (Some 2)) sample_all_missing) = Inr out'"
      "columns out' = take 2 (columns sample_all_missing)"
    unfolding ks cs Let_def by blast
  from rows(3) [rule_format, of 0] rows(3) [rule_format, of 1]
  have "row out 0 = row sample_all_missing 0" and "row out 1 = row sample_all_missing 2"
    by simp_all
  with wf rows(1,2) cols show ?thesis
    by auto
qed

text \<open>
  C1. Without a threshold the drop strategy is to keep exactly the rows that have no
  missing cell. The code does not: it passes \<^verbatim>\<open>thresh=None\<close> to \<^verbatim>\<open>dropna\<close>, which
  then keeps nothing. On the sample, rows 0 and 2 have no missing cell, yet the strategy,
  and the cleaning step with the name \<open>drop\<close> that builds it, return a dataset without
  rows.
\<close>

theorem drop_without_threshold_removes_every_row:
  "row sample_df 0 = [Some (Num 1), Some (Str ''Grvl'')]
   \<and> row sample_df 2 = [Some (Num 3), Some (Str ''Grvl'')]
   \<and> handle (DropMissingValuesStrategy 0 None) sample_df =
       ([(INFO, ''Dropping missing values with axis=0 and threshold=None''),
         (INFO, ''Missing values dropped.'')],
        Inr \<lparr>row_count = 0,
             columns =
               [\<lparr>name = ''LotFrontage'', data = NumData []\<rparr>,
                \<lparr>name = ''Alley'', data = ObjData []\<rparr>]\<rparr>)
   \<and> snd (handle_missing_values_step sample_df ''drop'') =
       Inr \<lparr>row_count = 0,
            columns =
              [\<lparr>name = ''LotFrontage'', data = NumData []\<rparr>,
               \<lparr>name = ''Alley'', data = ObjData []\<rparr>]\<rparr>"
proof -
  have rows: "row sample_df 0 = [Some (Num 1), Some (Str ''Grvl'')]"
    "row sample_df 2 = [Some (Num 3), Some (Str ''Grvl'')]"
    by (simp_all add: row_def sample_df_def)
  have none: "drop_rows None sample_df =
      \<lparr>row_count = 0,
       columns =
         [\<lparr>name = ''LotFrontage'', data = NumData []\<rparr>,
          \<lparr>name = ''Alley'', data = ObjData []\<rparr>]\<rparr>"
    by (simp add: drop_rows_def kept_rows_None sample_df_def)
  have zero: "str_int 0 = ''0''"
    by code_simp
  have strategy: "handle (DropMissingValuesStrategy 0 None) sample_df =
       ([(INFO, ''Dropping missing values with axis=0 and threshold=None''),
         (INFO, ''Missing values dropped.'')],
        Inr \<lparr>row_count = 0,
             columns =
               [\<lparr>name = ''LotFrontage'', data = NumData []\<rparr>,
                \<lparr>name = ''Alley'', data = ObjData []\<rparr>]\<rparr>)"
    by (simp add: after_def dropna_def none zero str_threshold_def)
  have step: "snd (handle_missing_values_step sample_df ''drop'') =
       snd (handle (DropMissingValuesStrategy 0 None) sample_df)"
    by (simp add: handle_missing_values_step_def handle_missing_values_def Let_def)
  from rows strategy step show ?thesis
    by simp
qed

section \<open>Properties of the cleaning step\<close>

lemma must_specify_neq_unsupported: "must_specify \<noteq> unsupported s"
  by (simp add: must_specify_def unsupported_def)

lemma fill_mode_cols_error:
  "fill_mode_cols cs = Inl e \<Longrightarrow> e = IndexError ''single positional indexer is out-of-bounds''"
  by (induction cs) (auto simp: fill_mode_col_def iloc0_def split: sum.splits list.splits)

lemma step_drop_not_unsupported:
  "snd (handle (DropMissingValuesStrategy 0 None) df) \<noteq> Inl (ValueError msg)"
  by (simp add: snd_after dropna_def)

lemma step_fill_not_unsupported:
  assumes "s \<in> {''mean'', ''median'', ''mode'', ''constant''}"
  shows "snd (handle (FillMissingValuesStrategy s None) df) \<noteq> Inl (ValueError (unsupported s))"
proof -
  consider "s = ''mean''" | "s = ''median''" | "s = ''mode''" | "s = ''constant''"
    using assms by auto
  then show ?thesis
  proof cases
    case 1 then show ?thesis by simp
  next
    case 2 then show ?thesis by simp
  next
    case 3
    then show ?thesis
      by (auto simp: snd_after dest: fill_mode_cols_error split: sum.splits)
  next
    case 4
    then show ?thesis
      using must_specify_neq_unsupported [of s] by (simp add: snd_after fillna_def)
  qed
qed

text \<open>
  C7. The cleaning step returns its own \<open>ValueError\<close> (the spec's
  \<open>InvalidStrategyParameter\<close>) exactly for the strategy names outside \<open>drop\<close>, \<open>mean\<close>,
  \<open>median\<close>, \<open>mode\<close>, \<open>constant\<close>. For \<open>drop\<close> it is the handler with the drop
  strategy on rows without a threshold; for the four fill names it is the handler with
  the fill strategy of that method and no fill value.
\<close>

theorem step_selection:
  "(snd (handle_missing_values_step df s) = Inl (ValueError (unsupported s))
      \<longleftrightarrow> s \<notin> {''drop'', ''mean'', ''median'', ''mode'', ''constant''})
   \<and> (s = ''drop'' \<longrightarrow>
        handle_missing_values_step df s =
          handle_missing_values \<lparr>strategy = DropMissingValuesStrategy 0 None\<rparr> df)
   \<and> (s \<in> {''mean'', ''median'', ''mode'', ''constant''} \<longrightarrow>
        handle_missing_values_step df s =
          handle_missing_values \<lparr>strategy = FillMissingValuesStrategy s None\<rparr> df)"
proof (intro conjI impI)
  show "snd (handle_missing_values_step df s) = Inl (ValueError (unsupported s))
      \<longleftrightarrow> s \<notin> {''drop'', ''mean'', ''median'', ''mode'', ''constant''}"
  proof (cases "s = ''drop''")
    case True
    then show ?thesis
      using step_drop_not_unsupported [of df "unsupported s"]
      by (simp add: handle_missing_values_step_def handle_missing_values_def Let_def)
  next
    case nd: False
    show ?thesis
    proof (cases "s \<in> {''mean'', ''median'', ''mode'', ''constant''}")
      case True
      then have "handle_missing_values_step df s =
          handle_missing_values \<lparr>strategy = FillMissingValuesStrategy s None\<rparr> df"
        using nd by (simp add: handle_missing_values_step_def)
      then show ?thesis
        using step_fill_not_unsupported [OF True, of df] True
        by (simp add: handle_missing_values_def Let_def)
    next
      case False
      then show ?thesis
        using nd by (simp add: handle_missing_values_step_def)
    qed
  qed
next
  assume "s = ''drop''"
  then show "handle_missing_values_step df s =
          handle_missing_values \<lparr>strategy = DropMissingValuesStrategy 0 None\<rparr> df"
    by (simp add: handle_missing_values_step_def)
next
  assume "s \<in> {''mean'', ''median'', ''mode'', ''constant''}"
  then show "handle_missing_values_step df s =
          handle_missing_values \<lparr>strategy = FillMissingValuesStrategy s None\<rparr> df"
    by (auto simp: handle_missing_values_step_def)
qed

theorem step_selection_witness:
  "snd (handle_missing_values_step sample_df ''interpolate'') =
     Inl (ValueError (unsupported ''interpolate''))
   \<and> snd (handle_missing_values_step sample_df ''median'') \<noteq>
     Inl (ValueError (unsupported ''median''))
   \<and> handle_missing_values_step sample_df ''drop'' =
     handle_missing_values \<lparr>strategy = DropMissingValuesStrategy 0 None\<rparr> sample_df
   \<and> handle_missing_values_step sample_df ''median'' =
     handle_missing_values \<lparr>strategy = FillMissingValuesStrategy ''median'' None\<rparr> sample_df"
proof -
  have outside: "snd (handle_missing_values_step sample_df ''interpolate'') =
      Inl (ValueError (unsupported ''interpolate''))"
    using step_selection [of sample_df "''interpolate''"] by simp
  have fill: "snd (handle_missing_values_step sample_df ''median'') \<noteq>
      Inl (ValueError (unsupported ''median''))
    \<and> handle_missing_values_step sample_df ''median'' =
      handle_missing_values \<lparr>strategy = FillMissingValuesStrategy ''median'' None\<rparr> sample_df"
  proof -
    have "''median'' \<in> {''mean'', ''median'', ''mode'', ''constant''}"
      and "''median'' \<in> {''drop'', ''mean'', ''median'', ''mode'', ''constant''}"
      by simp_all
    with step_selection [of sample_df "''median''"] show ?thesis by blast
  qed
  have drop: "handle_missing_values_step sample_df ''drop'' =
      handle_missing_values \<lparr>strategy = DropMissingValuesStrategy 0 None\<rparr> sample_df"
    using step_selection [of sample_df "''drop''"] by simp
  from outside fill drop show ?thesis by blast
qed

text \<open>
  C10. The step passes no fill value: for the name \<open>constant\<close> it runs the fill
  strategy with method \<open>constant\<close> and fill value \<open>None\<close>, and so, for every dataset
  (with or without missing cells), ends in the \<open>ValueError\<close> of the missing fill value
  and returns no dataset.
\<close>

theorem step_constant_never_fills:
  "handle_missing_values_step df ''constant'' =
     handle_missing_values \<lparr>strategy = FillMissingValuesStrategy ''constant'' None\<rparr> df
   \<and> handle_missing_values_step df ''constant'' =
     ([(INFO, ''Executing the current missing value handling strategy.''),
       (INFO, ''Filling missing values using method: constant'')],
      Inl (ValueError must_specify))"
  by (simp add: handle_missing_values_step_def handle_missing_values_def after_def fillna_def)

section \<open>Properties of the archive ingestor\<close>

text \<open>
  C8. When the path ends in \<open>.zip\<close>, the extraction succeeded and the staging directory
  was listed: with no listed name ending in \<open>.csv\<close> the ingestor fails with
  \<open>FileNotFoundError\<close> (the spec's \<open>SourceNotFoundError\<close>); with two or more it fails
  with the \<open>ValueError\<close> of multiple files (the spec's \<open>AmbiguousSourceError\<close>); with
  exactly one it returns what the CSV reader returns for that file in the staging
  directory.
\<close>

theorem ingest_by_csv_count:
  assumes "endswith file_path ''.zip''"
    and "extractall io file_path ''extracted_data'' fs = (fs', None)"
    and "listdir io ''extracted_data'' fs' = Inr files"
  shows "(filter (\<lambda>f. endswith f ''.csv'') files = [] \<longrightarrow>
            ingest io file_path fs =
              (fs', Inl (FileNotFoundError ''No CSV file found in the extracted data.'')))
       \<and> (2 \<le> length (filter (\<lambda>f. endswith f ''.csv'') files) \<longrightarrow>
            ingest io file_path fs =
              (fs', Inl (ValueError ''Multiple CSV files found. Please specify which one to use.'')))
       \<and> (\<forall>f. filter (\<lambda>f. endswith f ''.csv'') files = [f] \<longrightarrow>
            ingest io file_path fs = (fs', read_csv io (path_join ''extracted_data'' f) fs'))"
  using assms by (auto simp: ingest_def Let_def)

theorem ingest_by_csv_count_witness:
  "endswith ''data/archive.zip'' ''.zip''
   \<and> ingest staging_platform ''data/archive.zip'' [(''notes.txt'', sample_df)] =
       ([(''notes.txt'', sample_df)],
        Inl (FileNotFoundError ''No CSV file found in the extracted data.''))
   \<and> ingest staging_platform ''data/archive.zip''
         [(''train.csv'', sample_df), (''test.csv'', sample_all_missing)] =
       ([(''train.csv'', sample_df), (''test.csv'', sample_all_missing)],
        Inl (ValueError ''Multiple CSV files found. Please specify which one to use.''))
   \<and> ingest staging_platform ''data/archive.zip''
         [(''notes.txt'', sample_all_missing), (''AmesHousing.csv'', sample_df)] =
       ([(''notes.txt'', sample_all_missing), (''AmesHousing.csv'', sample_df)], Inr sample_df)"
proof -
  have zip: "endswith ''data/archive.zip'' ''.zip''"
    by (simp add: endswith_def)
  have ex: "extractall staging_platform ''data/archive.zip'' ''extracted_data'' fs = (fs, None)" for fs
    by (simp add: staging_platform_def)
  have ls: "listdir staging_platform ''extracted_data'' fs = Inr (map fst fs)" for fs
    by (simp add: staging_platform_def)
  have none: "ingest staging_platform ''data/archive.zip'' [(''notes.txt'', sample_df)] =
       ([(''notes.txt'', sample_df)],
        Inl (FileNotFoundError ''No CSV file found in the extracted data.''))"
    using ingest_by_csv_count [OF zip ex ls, of "[(''notes.txt'', sample_df)]"]
    by (simp add: endswith_def)
  have two: "ingest staging_platform ''data/archive.zip''
         [(''train.csv'', sample_df), (''test.csv'', sample_all_missing)] =
       ([(''train.csv'', sample_df), (''test.csv'', sample_all_missing)],
        Inl (ValueError ''Multiple CSV files found. Please specify which one to use.''))"
    using ingest_by_csv_count [OF zip ex ls, of "[(''train.csv'', sample_df), (''test.csv'', sample_all_missing)]"]
    by (simp add: endswith_def)
  have one: "ingest staging_platform ''data/archive.zip''
         [(''notes.txt'', sample_all_missing), (''AmesHousing.csv'', sample_df)] =
       ([(''notes.txt'', sample_all_missing), (''AmesHousing.csv'', sample_df)], Inr sample_df)"
    using ingest_by_csv_count [OF zip ex ls, of "[(''notes.txt'', sample_all_missing), (''AmesHousing.csv'', sample_df)]"]
    by (simp add: endswith_def staging_platform_def path_join_def)
  from zip none two one show ?thesis by blast
qed

end
